theory Spec2Isabelle
  imports Complex_Main "HOL-Library.Multiset"
begin

section \<open>The CLIP image search notebook\<close>

text \<open>
  The embedding follows the code cells of the notebook "CLIP Image Search": the table
  \<open>MODELS\<close> and \<open>load_model\<close>, the cell that loads the sample dataset and embeds every
  image, and \<open>search_images\<close>.

  The pretrained models, the image transforms, the tokenizer and numpy's \<open>argsort\<close> are
  library code outside the notebook. They are parameters of the model (the record
  \<open>library\<close>); every library call that can raise returns a sum, \<open>Inl\<close> the exception.
  Images and torch tensors are opaque: the type variables \<open>'img\<close> and \<open>'tns\<close>.

  Embedding vectors and similarity scores are floating-point numbers in the notebook. Here
  they are real numbers, so \<open>>\<close> and the order used by \<open>argsort\<close> are those of a linear
  order: a NaN among the scores is outside the model.
\<close>

subsection \<open>Exceptions\<close>

datatype error =
    NameError string
  | KeyError string
  | ValueError
  | IndexError
  | RuntimeError
  | LibraryError string

subsection \<open>Models and the library\<close>

record 'tns clip_model =
  encode_image :: "'tns \<Rightarrow> error + real list"
  encode_text :: "'tns \<Rightarrow> error + real list"

type_synonym ('img, 'tns) transform = "'img \<Rightarrow> error + 'tns"

record ('img, 'tns) library =
  clip_load :: "string \<Rightarrow> error + ('tns clip_model \<times> ('img, 'tns) transform)"
  create_model_and_transforms ::
    "string \<Rightarrow> string \<Rightarrow> error + ('tns clip_model \<times> ('img, 'tns) transform)"
  tokenize :: "string \<Rightarrow> error + 'tns"
  convert_rgb :: "'img \<Rightarrow> error + 'img"
  argsort :: "real list \<Rightarrow> nat list"

text \<open>
  What numpy promises of \<open>argsort\<close> with its default kind: the result is a permutation of
  the positions of its argument that puts the keys in ascending order. The default kind
  is not a stable sort, so nothing is promised about the order of equal keys.
\<close>

definition argsort_ok :: "real list \<Rightarrow> nat list \<Rightarrow> bool" where
  "argsort_ok keys idx \<longleftrightarrow>
     sort idx = [0..<length keys] \<and> sorted (map (\<lambda>i. keys ! i) idx)"

subsection \<open>The table of models and \<open>load_model\<close>\<close>

record model_config =
  cfg_type :: string
  cfg_name :: string
  cfg_pretrained :: "string option"

definition MODELS :: "string \<Rightarrow> model_config option" where
  "MODELS = map_of
     [(''CLIP (ViT-B/32)'',
         \<lparr>cfg_type = ''clip'', cfg_name = ''ViT-B/32'', cfg_pretrained = None\<rparr>),
      (''OpenCLIP (ViT-B-32)'',
         \<lparr>cfg_type = ''open_clip'', cfg_name = ''ViT-B-32'',
          cfg_pretrained = Some ''laion2b_s34b_b79k''\<rparr>),
      (''OpenCLIP (ViT-L-14)'',
         \<lparr>cfg_type = ''open_clip'', cfg_name = ''ViT-L-14'',
          cfg_pretrained = Some ''laion2b_s32b_b82k''\<rparr>)]"

definition load_model ::
  "('img, 'tns) library \<Rightarrow> string \<Rightarrow> error + ('tns clip_model \<times> ('img, 'tns) transform)"
where
  "load_model lib model_choice =
     (case MODELS model_choice of
        None \<Rightarrow> Inl (KeyError model_choice)
      | Some model_config \<Rightarrow>
          if cfg_type model_config = ''clip''
          then clip_load lib (cfg_name model_config)
          else (case cfg_pretrained model_config of
                  None \<Rightarrow> Inl (KeyError ''pretrained'')
                | Some pre \<Rightarrow> create_model_and_transforms lib (cfg_name model_config) pre))"

subsection \<open>The global names of the notebook\<close>

text \<open>
  \<open>current_model\<close> is \<open>None\<close> when the name is not bound. No cell of the notebook assigns
  it; \<open>search_images\<close> reads it and declares only \<open>model\<close> and \<open>preprocess\<close> global.
\<close>

record ('img, 'tns) globals =
  model :: "'tns clip_model"
  preprocess :: "('img, 'tns) transform"
  image_features :: "real list list"
  processed_images :: "'img list"
  current_model :: "string option"

subsection \<open>Loading the sample dataset\<close>

text \<open>
  The body of the loop over the dataset, for one image: convert it to RGB, preprocess it,
  encode it. The result is the features and the converted image. Nothing catches an
  exception.
\<close>

definition embed_item ::
  "('img, 'tns) library \<Rightarrow> 'tns clip_model \<Rightarrow> ('img, 'tns) transform \<Rightarrow> 'img \<Rightarrow>
   error + (real list \<times> 'img)"
where
  "embed_item lib m pre img =
     (case convert_rgb lib img of
        Inl e \<Rightarrow> Inl e
      | Inr img' \<Rightarrow>
          (case pre img' of
             Inl e \<Rightarrow> Inl e
           | Inr image_input \<Rightarrow>
               (case encode_image m image_input of
                  Inl e \<Rightarrow> Inl e
                | Inr features \<Rightarrow> Inr (features, img'))))"

text \<open>
  The loop: the accumulator is (\<open>image_features\<close>, \<open>processed_images\<close>), both appended to
  in the order of the dataset. The first exception ends the cell.
\<close>

fun embed_loop ::
  "('img, 'tns) library \<Rightarrow> 'tns clip_model \<Rightarrow> ('img, 'tns) transform \<Rightarrow>
   ('img \<times> int) list \<Rightarrow> real list list \<times> 'img list \<Rightarrow> error + (real list list \<times> 'img list)"
where
  "embed_loop lib m pre [] acc = Inr acc"
| "embed_loop lib m pre ((img, label) # rest) (feats, imgs) =
     (case embed_item lib m pre img of
        Inl e \<Rightarrow> Inl e
      | Inr (features, img') \<Rightarrow>
          embed_loop lib m pre rest (feats @ [features], imgs @ [img']))"

text \<open>
  \<open>torch.cat\<close> of the list of one-row tensors: it raises on an empty list and on rows of
  different lengths.
\<close>

definition torch_cat :: "real list list \<Rightarrow> error + real list list" where
  "torch_cat rows =
     (case rows of
        [] \<Rightarrow> Inl RuntimeError
      | r # rs \<Rightarrow> if \<forall>r' \<in> set rs. length r' = length r then Inr rows else Inl RuntimeError)"

text \<open>
  The whole cell. The third component of the result is the number the cell prints
  (\<open>Loaded n images\<close>).
\<close>

definition load_sample_dataset ::
  "('img, 'tns) library \<Rightarrow> 'tns clip_model \<Rightarrow> ('img, 'tns) transform \<Rightarrow>
   ('img \<times> int) list \<Rightarrow> error + (real list list \<times> 'img list \<times> nat)"
where
  "load_sample_dataset lib m pre dataset =
     (case embed_loop lib m pre dataset ([], []) of
        Inl e \<Rightarrow> Inl e
      | Inr (feats, imgs) \<Rightarrow>
          (case torch_cat feats of
             Inl e \<Rightarrow> Inl e
           | Inr stacked \<Rightarrow> Inr (stacked, imgs, length imgs)))"

text \<open>The cells up to the definition of \<open>search_images\<close>, run in order.\<close>

definition notebook_setup ::
  "('img, 'tns) library \<Rightarrow> ('img \<times> int) list \<Rightarrow> error + ('img, 'tns) globals"
where
  "notebook_setup lib dataset =
     (case load_model lib ''CLIP (ViT-B/32)'' of
        Inl e \<Rightarrow> Inl e
      | Inr (m, pre) \<Rightarrow>
          (case load_sample_dataset lib m pre dataset of
             Inl e \<Rightarrow> Inl e
           | Inr (feats, imgs, n) \<Rightarrow>
               Inr \<lparr>model = m, preprocess = pre, image_features = feats,
                    processed_images = imgs, current_model = None\<rparr>))"

subsection \<open>\<open>search_images\<close>\<close>

definition dot :: "real list \<Rightarrow> real list \<Rightarrow> real" where
  "dot a b = sum_list (map (\<lambda>(x, y). x * y) (zip a b))"

text \<open>
  \<open>(image_features @ text_features.T).squeeze(1)\<close>: one dot product per row. The matrix
  product raises when the row length differs from the length of the query vector.
  (\<open>image_features\<close> comes from \<open>torch_cat\<close>, so it has at least one row.)
\<close>

definition similarities :: "real list list \<Rightarrow> real list \<Rightarrow> error + real list" where
  "similarities feats text_features =
     (if \<forall>row \<in> set feats. length row = length text_features
      then Inr (map (\<lambda>row. dot row text_features) feats)
      else Inl ValueError)"

text \<open>The slice \<open>xs[:k]\<close>: a negative \<open>k\<close> counts from the end.\<close>

definition slice_to :: "int \<Rightarrow> 'a list \<Rightarrow> 'a list" where
  "slice_to k xs = (if 0 \<le> k then take (nat k) xs else take (length xs - nat (- k)) xs)"

definition best_photo_idx :: "('img, 'tns) library \<Rightarrow> real list \<Rightarrow> int \<Rightarrow> nat list" where
  "best_photo_idx lib sims num_results = slice_to num_results (argsort lib (map uminus sims))"

text \<open>The positions that the last line keeps, in the order it visits them.\<close>

definition matching_idx :: "('img, 'tns) library \<Rightarrow> real list \<Rightarrow> int \<Rightarrow> real \<Rightarrow> nat list" where
  "matching_idx lib sims num_results t =
     filter (\<lambda>i. t < sims ! i) (best_photo_idx lib sims num_results)"

text \<open>
  The list comprehension of the last line, in the order it evaluates: for each index first
  \<open>similarities[i] > similarity_threshold\<close>, then \<open>processed_images[i]\<close>; either read
  raises when the index is out of range.
\<close>

fun collect_matches :: "'img list \<Rightarrow> real list \<Rightarrow> real \<Rightarrow> nat list \<Rightarrow> error + 'img list" where
  "collect_matches imgs sims t [] = Inr []"
| "collect_matches imgs sims t (i # rest) =
     (if length sims \<le> i then Inl IndexError
      else if t < sims ! i
      then (if length imgs \<le> i then Inl IndexError
            else (case collect_matches imgs sims t rest of
                    Inl e \<Rightarrow> Inl e
                  | Inr found \<Rightarrow> Inr (imgs ! i # found)))
      else collect_matches imgs sims t rest)"

text \<open>
  The part of \<open>search_images\<close> after the query is encoded (from "Calculate similarities"
  to the return). The result \<open>None\<close> is Python's \<open>None\<close>.
\<close>

definition top_matches ::
  "('img, 'tns) library \<Rightarrow> real list list \<Rightarrow> 'img list \<Rightarrow> real list \<Rightarrow> int \<Rightarrow> real \<Rightarrow>
   error + 'img list option"
where
  "top_matches lib feats imgs text_features num_results similarity_threshold =
     (case similarities feats text_features of
        Inl e \<Rightarrow> Inl e
      | Inr sims \<Rightarrow>
          if \<not> (\<exists>s \<in> set sims. similarity_threshold < s) then Inr None
          else (case collect_matches imgs sims similarity_threshold
                       (best_photo_idx lib sims num_results) of
                  Inl e \<Rightarrow> Inl e
                | Inr found \<Rightarrow> Inr (Some found)))"

text \<open>
  \<open>search_images\<close> returns the globals as it leaves them and, beside them, its result or
  the exception. Reading the unbound name \<open>current_model\<close> raises before anything else
  happens. The assignment to \<open>model\<close> and \<open>preprocess\<close> is done before the query is encoded,
  so it stays when a later step raises.
\<close>

definition search_images ::
  "('img, 'tns) library \<Rightarrow> ('img, 'tns) globals \<Rightarrow> string \<Rightarrow> string \<Rightarrow> int \<Rightarrow> real \<Rightarrow>
   ('img, 'tns) globals \<times> (error + 'img list option)"
where
  "search_images lib g query model_choice num_results similarity_threshold =
     (case current_model g of
        None \<Rightarrow> (g, Inl (NameError ''current_model''))
      | Some cm \<Rightarrow>
          (case (if model_choice \<noteq> cm
                 then (case load_model lib model_choice of
                         Inl e \<Rightarrow> Inl e
                       | Inr (m, pre) \<Rightarrow> Inr (g\<lparr>model := m, preprocess := pre\<rparr>))
                 else Inr g) of
             Inl e \<Rightarrow> (g, Inl e)
           | Inr g' \<Rightarrow>
               (g', (case tokenize lib query of
                       Inl e \<Rightarrow> Inl e
                     | Inr tokens \<Rightarrow>
                         (case encode_text (model g') tokens of
                            Inl e \<Rightarrow> Inl e
                          | Inr text_features \<Rightarrow>
                              top_matches lib (image_features g') (processed_images g')
                                text_features num_results similarity_threshold)))))"

subsection \<open>\<open>gradio_search\<close>\<close>

text \<open>
  The function the interface calls. It leaves \<open>num_results\<close> at its default 9, turns
  \<open>None\<close> into nine empty slots and pads a shorter list with empty slots up to nine.
\<close>

definition gradio_search ::
  "('img, 'tns) library \<Rightarrow> ('img, 'tns) globals \<Rightarrow> string \<Rightarrow> string \<Rightarrow> real \<Rightarrow>
   ('img, 'tns) globals \<times> (error + 'img option list)"
where
  "gradio_search lib g query model_choice similarity_threshold =
     (case search_images lib g query model_choice 9 similarity_threshold of
        (g', Inl e) \<Rightarrow> (g', Inl e)
      | (g', Inr None) \<Rightarrow> (g', Inr (replicate 9 None))
      | (g', Inr (Some results)) \<Rightarrow>
          (g', Inr (map Some results @ replicate (9 - length results) None)))"

subsection \<open>A small library and collection for concrete runs\<close>

text \<open>
  Images and tensors are numbers here. Model A embeds the images 0, 1 and 2 as \<open>[1, 0]\<close>,
  \<open>[0, 1]\<close> and \<open>[0.7, 0.7]\<close> and every query as \<open>[1, 0]\<close>; it fails on any other image.
  Model B embeds the same images with the two coordinates swapped.
\<close>

definition model_A :: "nat clip_model" where
  "model_A =
     \<lparr>encode_image =
        (\<lambda>n. if n < 3 then Inr ([[1, 0], [0, 1], [7 / 10, 7 / 10]] ! n)
              else Inl (LibraryError ''encode_image'')),
      encode_text = (\<lambda>tokens. Inr [1, 0])\<rparr>"

definition model_B :: "nat clip_model" where
  "model_B =
     \<lparr>encode_image =
        (\<lambda>n. if n < 3 then Inr ([[0, 1], [1, 0], [7 / 10, 7 / 10]] ! n)
              else Inl (LibraryError ''encode_image'')),
      encode_text = (\<lambda>tokens. Inr [0, 1])\<rparr>"

definition transform_id :: "(nat, nat) transform" where
  "transform_id n = Inr n"

text \<open>
  Two sorts that meet \<open>argsort_ok\<close> on every list of keys. The first is stable: it leaves
  equal keys in ascending position, as numpy does on the keys \<open>[-1, -1]\<close>. The second
  differs from it on the keys \<open>[-1, -1, -2, -2]\<close> only, where it answers as a sort by a
  compare-exchange network does: the smaller keys of the positions 3 and 2 are exchanged
  with the larger ones of the positions 0 and 1 and come to the front as 3, 2. The order
  of the two positions that follow is its parameter \<open>rest\<close>, \<open>[1, 0]\<close> or \<open>[0, 1]\<close>.
\<close>

definition argsort_asc :: "real list \<Rightarrow> nat list" where
  "argsort_asc keys = sort_key (\<lambda>i. keys ! i) [0..<length keys]"

definition argsort_network :: "nat list \<Rightarrow> real list \<Rightarrow> nat list" where
  "argsort_network rest keys =
     (if keys = [- 1, - 1, - 2, - 2] then [3, 2] @ rest else argsort_asc keys)"

definition lib_A :: "(nat, nat) library" where
  "lib_A =
     \<lparr>clip_load = (\<lambda>name. Inr (model_A, transform_id)),
      create_model_and_transforms = (\<lambda>name pre. Inr (model_B, transform_id)),
      tokenize = (\<lambda>query. Inr (length query)),
      convert_rgb = (\<lambda>n. Inr n),
      argsort = argsort_asc\<rparr>"

definition lib_network :: "nat list \<Rightarrow> (nat, nat) library" where
  "lib_network rest = lib_A\<lparr>argsort := argsort_network rest\<rparr>"

definition three_images :: "(nat \<times> int) list" where
  "three_images = [(0, 0), (1, 0), (2, 0)]"

text \<open>
  The globals after the setup cells on \<open>three_images\<close>, and the same with the name
  \<open>current_model\<close> bound to the name of the model that is loaded.
\<close>

definition globals_unbound :: "(nat, nat) globals" where
  "globals_unbound =
     \<lparr>model = model_A, preprocess = transform_id,
      image_features = [[1, 0], [0, 1], [7 / 10, 7 / 10]],
      processed_images = [0, 1, 2], current_model = None\<rparr>"

definition globals_bound :: "(nat, nat) globals" where
  "globals_bound = globals_unbound\<lparr>current_model := Some ''CLIP (ViT-B/32)''\<rparr>"

section \<open>Properties\<close>

subsection \<open>The list comprehension, the slice and the sort\<close>

lemma collect_matches_Inr:
  "collect_matches imgs sims t idx = Inr found \<Longrightarrow>
     found = map (\<lambda>i. imgs ! i) (filter (\<lambda>i. t < sims ! i) idx)
     \<and> (\<forall>i \<in> set idx. i < length sims)
     \<and> (\<forall>i \<in> set (filter (\<lambda>i. t < sims ! i) idx). i < length imgs)"
proof (induction idx arbitrary: found)
  case Nil
  then show ?case by simp
next
  case (Cons i rest)
  show ?case
  proof (cases "t < sims ! i")
    case True
    with Cons.prems obtain found' where
      r: "collect_matches imgs sims t rest = Inr found'" and f: "found = imgs ! i # found'"
      and b: "i < length sims" "i < length imgs"
      by (auto split: if_splits sum.splits)
    from Cons.IH [OF r] True f b show ?thesis by simp
  next
    case False
    with Cons.prems have r: "collect_matches imgs sims t rest = Inr found"
      and b: "i < length sims"
      by (auto split: if_splits)
    from Cons.IH [OF r] False b show ?thesis by simp
  qed
qed

lemma length_slice_to: "0 \<le> k \<Longrightarrow> length (slice_to k xs) \<le> nat k"
  by (simp add: slice_to_def)

lemma similarities_Inr:
  "similarities feats tf = Inr sims \<Longrightarrow> sims = map (\<lambda>row. dot row tf) feats"
  by (simp add: similarities_def split: if_splits)

lemma top_matches_SomeD:
  assumes "top_matches lib feats imgs tf k t = Inr (Some found)"
  shows "similarities feats tf = Inr (map (\<lambda>row. dot row tf) feats)"
    and "\<exists>s \<in> set (map (\<lambda>row. dot row tf) feats). t < s"
    and "collect_matches imgs (map (\<lambda>row. dot row tf) feats) t
           (best_photo_idx lib (map (\<lambda>row. dot row tf) feats) k) = Inr found"
proof -
  from assms obtain sims where s: "similarities feats tf = Inr sims"
    by (auto simp: top_matches_def split: sum.splits)
  then have e: "sims = map (\<lambda>row. dot row tf) feats" by (rule similarities_Inr)
  from s e show "similarities feats tf = Inr (map (\<lambda>row. dot row tf) feats)" by simp
  from assms s e show "\<exists>s \<in> set (map (\<lambda>row. dot row tf) feats). t < s"
    by (auto simp: top_matches_def split: sum.splits if_splits)
  from assms s e show "collect_matches imgs (map (\<lambda>row. dot row tf) feats) t
           (best_photo_idx lib (map (\<lambda>row. dot row tf) feats) k) = Inr found"
    by (auto simp: top_matches_def split: sum.splits if_splits)
qed

lemma argsort_ok_set: "argsort_ok keys idx \<Longrightarrow> set idx = {0..<length keys}"
proof -
  assume "argsort_ok keys idx"
  then have "sort idx = [0..<length keys]" by (simp add: argsort_ok_def)
  then have "set (sort idx) = set [0..<length keys]" by simp
  then show ?thesis by simp
qed

lemma argsort_ok_distinct: "argsort_ok keys idx \<Longrightarrow> distinct idx"
proof -
  assume "argsort_ok keys idx"
  then have "sort idx = [0..<length keys]" by (simp add: argsort_ok_def)
  then have "distinct (sort idx)" by simp
  then show ?thesis by simp
qed

lemma argsort_ok_length: "argsort_ok keys idx \<Longrightarrow> length idx = length keys"
proof -
  assume "argsort_ok keys idx"
  then have "sort idx = [0..<length keys]" by (simp add: argsort_ok_def)
  then have "length (sort idx) = length [0..<length keys]" by simp
  then show ?thesis by simp
qed

lemma set_slice_to: "set (slice_to k xs) \<subseteq> set xs"
  by (auto simp: slice_to_def dest: in_set_takeD)

lemma sorted_wrt_slice_to: "sorted_wrt P xs \<Longrightarrow> sorted_wrt P (slice_to k xs)"
  by (simp add: slice_to_def sorted_wrt_take)

lemma distinct_slice_to: "distinct xs \<Longrightarrow> distinct (slice_to k xs)"
  by (simp add: slice_to_def)

lemma argsort_asc_ok: "argsort_ok keys (argsort_asc keys)"
proof -
  have "sort (sort_key (\<lambda>i. keys ! i) [0..<length keys]) = [0..<length keys]"
    by (rule properties_for_sort) simp_all
  then show ?thesis by (simp add: argsort_ok_def argsort_asc_def)
qed

lemma argsort_network_ok:
  assumes "rest = [1, 0] \<or> rest = [0, 1]"
  shows "argsort_ok keys (argsort_network rest keys)"
proof (cases "keys = [- 1, - 1, - 2, - 2]")
  case True
  with assms show ?thesis
    by (auto simp: argsort_ok_def argsort_network_def)
next
  case False
  then show ?thesis
    by (simp add: argsort_network_def argsort_asc_ok)
qed

lemma argsort_three:
  assumes "argsort_ok [- 1, 0, - (7 / 10)] idx"
  shows "idx = [0, 2, 1]"
proof -
  from argsort_ok_length [OF assms] have "length idx = Suc (Suc (Suc 0))" by simp
  then obtain a b c where idx: "idx = [a, b, c]"
    by (auto simp: length_Suc_conv)
  have "i < 3" if "i \<in> set idx" for i
    using argsort_ok_set [OF assms] that by simp
  with idx have "a < 3" "b < 3" "c < 3" by simp_all
  then have r: "a = 0 \<or> a = 1 \<or> a = 2" "b = 0 \<or> b = 1 \<or> b = 2" "c = 0 \<or> c = 1 \<or> c = 2"
    by arith+
  from argsort_ok_distinct [OF assms] idx have d: "a \<noteq> b" "a \<noteq> c" "b \<noteq> c" by auto
  from assms idx have o: "[- 1, 0, - (7 / 10) :: real] ! a \<le> [- 1, 0, - (7 / 10)] ! b"
      "[- 1, 0, - (7 / 10) :: real] ! b \<le> [- 1, 0, - (7 / 10)] ! c"
    by (simp_all add: argsort_ok_def)
  from r d o have "a = 0 \<and> b = 2 \<and> c = 1"
    by (elim disjE) simp_all
  with idx show ?thesis by simp
qed

lemma collect_matches_in_range:
  "\<forall>i \<in> set idx. i < length sims \<and> i < length imgs \<Longrightarrow>
   collect_matches imgs sims t idx = Inr (map (\<lambda>i. imgs ! i) (filter (\<lambda>i. t < sims ! i) idx))"
  by (induction idx) auto

subsection \<open>The loop over the dataset and the setup cells\<close>

lemma embed_loop_Inl:
  "\<exists>x \<in> set dataset. \<exists>e. embed_item lib m pre (fst x) = Inl e \<Longrightarrow>
   \<exists>e. embed_loop lib m pre dataset acc = Inl e"
proof (induction dataset arbitrary: acc)
  case Nil
  then show ?case by simp
next
  case (Cons x rest)
  obtain img label where x: "x = (img, label)" by (cases x)
  obtain feats imgs where acc: "acc = (feats, imgs)" by (cases acc)
  show ?case
  proof (cases "embed_item lib m pre img")
    case (Inl e)
    with x acc show ?thesis by simp
  next
    case (Inr r)
    with Cons.prems x have "\<exists>y \<in> set rest. \<exists>e. embed_item lib m pre (fst y) = Inl e"
      by auto
    from Cons.IH [OF this] Inr x acc show ?thesis
      by (cases r) simp
  qed
qed

lemma embed_loop_Inr:
  "embed_loop lib m pre dataset (feats, imgs) = Inr (feats', imgs') \<Longrightarrow>
   \<exists>fs is. feats' = feats @ fs \<and> imgs' = imgs @ is
     \<and> length fs = length dataset \<and> length is = length dataset
     \<and> (\<forall>j < length dataset. embed_item lib m pre (fst (dataset ! j)) = Inr (fs ! j, is ! j))"
proof (induction dataset arbitrary: feats imgs)
  case Nil
  then show ?case by simp
next
  case (Cons x rest)
  obtain img label where x: "x = (img, label)" by (cases x)
  from Cons.prems x obtain f i where
    item: "embed_item lib m pre img = Inr (f, i)"
    and loop: "embed_loop lib m pre rest (feats @ [f], imgs @ [i]) = Inr (feats', imgs')"
    by (auto split: sum.splits)
  from Cons.IH [OF loop] obtain fs "is" where
    r: "feats' = (feats @ [f]) @ fs" "imgs' = (imgs @ [i]) @ is"
      "length fs = length rest" "length is = length rest"
      "\<forall>j < length rest. embed_item lib m pre (fst (rest ! j)) = Inr (fs ! j, is ! j)"
    by blast
  have "\<forall>j < length (x # rest).
          embed_item lib m pre (fst ((x # rest) ! j)) = Inr ((f # fs) ! j, (i # is) ! j)"
  proof (intro allI impI)
    fix j assume "j < length (x # rest)"
    with r(5) item x
    show "embed_item lib m pre (fst ((x # rest) ! j)) = Inr ((f # fs) ! j, (i # is) ! j)"
      by (cases j) simp_all
  qed
  with r show ?case
    by (intro exI [of _ "f # fs"] exI [of _ "i # is"]) simp
qed

lemma embed_item_image:
  "embed_item lib m pre img = Inr (f, i) \<Longrightarrow> convert_rgb lib img = Inr i"
  by (auto simp: embed_item_def split: sum.splits)

lemma load_sample_dataset_Inr:
  assumes "load_sample_dataset lib m pre dataset = Inr (feats, imgs, n)"
  shows "length feats = length dataset \<and> length imgs = length dataset \<and> n = length dataset
    \<and> (\<forall>j < length dataset.
          embed_item lib m pre (fst (dataset ! j)) = Inr (feats ! j, imgs ! j))"
proof -
  from assms obtain fs where
    loop: "embed_loop lib m pre dataset ([], []) = Inr (fs, imgs)"
    and cat: "torch_cat fs = Inr feats" and n: "n = length imgs"
    by (auto simp: load_sample_dataset_def split: sum.splits)
  from cat have "feats = fs"
    by (auto simp: torch_cat_def split: list.splits if_splits)
  with embed_loop_Inr [OF loop] n show ?thesis by auto
qed

lemma notebook_setup_unbound:
  "notebook_setup lib dataset = Inr g \<Longrightarrow> current_model g = None"
  by (auto simp: notebook_setup_def split: sum.splits)

subsection \<open>The ranking step\<close>

text \<open>
  C2. Every image in a list returned by the ranking step stands at a position of the
  collection whose similarity, the dot product of the query vector with the features at
  that position, is strictly greater than the threshold.
\<close>

theorem top_matches_above_threshold:
  assumes "top_matches lib feats imgs text_features num_results t = Inr (Some found)"
  shows "found = map (\<lambda>i. imgs ! i)
                   (matching_idx lib (map (\<lambda>row. dot row text_features) feats) num_results t)
    \<and> (\<forall>i \<in> set (matching_idx lib (map (\<lambda>row. dot row text_features) feats) num_results t).
          i < length feats \<and> i < length imgs \<and> t < dot (feats ! i) text_features)"
proof -
  let ?sims = "map (\<lambda>row. dot row text_features) feats"
  note c = collect_matches_Inr [OF top_matches_SomeD(3) [OF assms]]
  from c have 1: "found = map (\<lambda>i. imgs ! i) (matching_idx lib ?sims num_results t)"
    by (simp add: matching_idx_def)
  have 2: "i < length feats \<and> i < length imgs \<and> t < dot (feats ! i) text_features"
    if "i \<in> set (matching_idx lib ?sims num_results t)" for i
  proof -
    from that have m: "i \<in> set (best_photo_idx lib ?sims num_results)" and gt: "t < ?sims ! i"
      by (simp_all add: matching_idx_def)
    from c m have lt: "i < length feats" by auto
    from c m gt have "i < length imgs" by simp
    with lt gt show ?thesis by simp
  qed
  from 1 2 show ?thesis by blast
qed

theorem top_matches_above_threshold_witness:
  "top_matches lib_A [[1, 0], [0, 1], [7 / 10, 7 / 10]] [0, 1, 2] [1, 0] 9 (1 / 5)
     = Inr (Some [0, 2::nat])
   \<and> 2 \<in> set (matching_idx lib_A
         (map (\<lambda>row. dot row [1, 0]) [[1, 0], [0, 1], [7 / 10, 7 / 10]]) 9 (1 / 5))
   \<and> 1 / 5 < dot ([[1, 0], [0, 1], [7 / 10, 7 / 10]] ! 2) [1, 0]"
proof -
  have h: "top_matches lib_A [[1, 0], [0, 1], [7 / 10, 7 / 10]] [0, 1, 2] [1, 0] 9 (1 / 5)
     = Inr (Some [0, 2::nat])"
    by (simp add: top_matches_def similarities_def dot_def best_photo_idx_def slice_to_def
        lib_A_def argsort_asc_def)
  have m: "2 \<in> set (matching_idx lib_A
         (map (\<lambda>row. dot row [1, 0]) [[1, 0], [0, 1], [7 / 10, 7 / 10]]) 9 (1 / 5))"
    by (simp add: matching_idx_def dot_def best_photo_idx_def slice_to_def lib_A_def
        argsort_asc_def)
  from top_matches_above_threshold [OF h] m h show ?thesis by blast
qed

text \<open>
  C3, as the code has it. With an \<open>argsort\<close> that meets \<open>argsort_ok\<close>, the returned images
  are in descending order of similarity and no position is returned twice. The order of
  positions with equal similarity is the one \<open>argsort\<close> gives them.
\<close>

theorem top_matches_sorted_descending:
  assumes "argsort_ok (map uminus (map (\<lambda>row. dot row text_features) feats))
             (argsort lib (map uminus (map (\<lambda>row. dot row text_features) feats)))"
    and "top_matches lib feats imgs text_features num_results t = Inr (Some found)"
  shows "found = map (\<lambda>i. imgs ! i)
                   (matching_idx lib (map (\<lambda>row. dot row text_features) feats) num_results t)
    \<and> sorted_wrt (\<lambda>i j. dot (feats ! j) text_features \<le> dot (feats ! i) text_features)
        (matching_idx lib (map (\<lambda>row. dot row text_features) feats) num_results t)
    \<and> distinct (matching_idx lib (map (\<lambda>row. dot row text_features) feats) num_results t)"
proof -
  let ?sims = "map (\<lambda>row. dot row text_features) feats"
  let ?order = "argsort lib (map uminus ?sims)"
  let ?R = "\<lambda>i j. dot (feats ! j) text_features \<le> dot (feats ! i) text_features"
  have rng: "set ?order = {0..<length feats}"
    using argsort_ok_set [OF assms(1)] by simp
  from assms(1) have "sorted (map (\<lambda>i. map uminus ?sims ! i) ?order)"
    by (simp add: argsort_ok_def)
  then have "sorted_wrt (\<lambda>i j. map uminus ?sims ! i \<le> map uminus ?sims ! j) ?order"
    by (simp add: sorted_map)
  then have "sorted_wrt ?R ?order"
    by (rule sorted_wrt_mono_rel [rotated]) (use rng in auto)
  then have "sorted_wrt ?R (matching_idx lib ?sims num_results t)"
    by (simp add: matching_idx_def best_photo_idx_def sorted_wrt_slice_to sorted_wrt_filter)
  moreover have "distinct (matching_idx lib ?sims num_results t)"
    using argsort_ok_distinct [OF assms(1)]
    by (simp add: matching_idx_def best_photo_idx_def distinct_slice_to)
  moreover have "found = map (\<lambda>i. imgs ! i) (matching_idx lib ?sims num_results t)"
    using collect_matches_Inr [OF top_matches_SomeD(3) [OF assms(2)]]
    by (simp add: matching_idx_def)
  ultimately show ?thesis by blast
qed

theorem top_matches_sorted_descending_witness:
  "argsort_ok (map uminus (map (\<lambda>row. dot row [1, 0]) [[1, 0], [0, 1], [7 / 10, 7 / 10]]))
     (argsort lib_A (map uminus (map (\<lambda>row. dot row [1, 0]) [[1, 0], [0, 1], [7 / 10, 7 / 10]])))
   \<and> top_matches lib_A [[1, 0], [0, 1], [7 / 10, 7 / 10]] [0, 1, 2] [1, 0] 9 (1 / 5)
       = Inr (Some [0, 2::nat])
   \<and> sorted_wrt (\<lambda>i j. dot ([[1, 0], [0, 1], [7 / 10, 7 / 10]] ! j) [1, 0]
                    \<le> dot ([[1, 0], [0, 1], [7 / 10, 7 / 10]] ! i) [1, 0])
       (matching_idx lib_A
          (map (\<lambda>row. dot row [1, 0]) [[1, 0], [0, 1], [7 / 10, 7 / 10]]) 9 (1 / 5))"
proof -
  have a: "argsort_ok (map uminus (map (\<lambda>row. dot row [1, 0]) [[1, 0], [0, 1], [7 / 10, 7 / 10]]))
     (argsort lib_A (map uminus (map (\<lambda>row. dot row [1, 0]) [[1, 0], [0, 1], [7 / 10, 7 / 10]])))"
    by (simp add: argsort_ok_def dot_def lib_A_def argsort_asc_def)
  have h: "top_matches lib_A [[1, 0], [0, 1], [7 / 10, 7 / 10]] [0, 1, 2] [1, 0] 9 (1 / 5)
     = Inr (Some [0, 2::nat])"
    by (simp add: top_matches_def similarities_def dot_def best_photo_idx_def slice_to_def
        lib_A_def argsort_asc_def)
  from top_matches_sorted_descending [OF a h] a h show ?thesis by blast
qed

text \<open>
  C3 as stated fails for the order of equal similarities. On the collection with features
  \<open>[1]\<close>, \<open>[1]\<close>, \<open>[2]\<close>, \<open>[2]\<close>, the query vector \<open>[1]\<close> and 2 results, the two images of
  similarity 2 come back with position 3 before position 2 when the sort answers the keys
  \<open>[-1, -1, -2, -2]\<close> with 3, 2 in front, whichever way it orders the two positions that
  the slice drops; such a sort meets \<open>argsort_ok\<close>.
\<close>

theorem tie_order_counterexample:
  "argsort_ok (map uminus (map (\<lambda>row. dot row [1]) [[1], [1], [2], [2]]))
     (argsort (lib_network [1, 0]) (map uminus (map (\<lambda>row. dot row [1]) [[1], [1], [2], [2]])))
   \<and> top_matches (lib_network [1, 0]) [[1], [1], [2], [2]] [10, 20, 30, 40::nat] [1] 2 0
       = Inr (Some [40, 30])
   \<and> argsort_ok (map uminus (map (\<lambda>row. dot row [1]) [[1], [1], [2], [2]]))
     (argsort (lib_network [0, 1]) (map uminus (map (\<lambda>row. dot row [1]) [[1], [1], [2], [2]])))
   \<and> top_matches (lib_network [0, 1]) [[1], [1], [2], [2]] [10, 20, 30, 40::nat] [1] 2 0
       = Inr (Some [40, 30])"
  by (simp add: argsort_ok_def top_matches_def similarities_def dot_def best_photo_idx_def
      slice_to_def lib_network_def lib_A_def argsort_network_def)

text \<open>
  C4, as the code has it. On the collection with features \<open>[1, 0]\<close>, \<open>[0, 1]\<close>,
  \<open>[0.7, 0.7]\<close> and the query vector \<open>[1, 0]\<close>, the ranking step returns the images
  (without their scores) \<open>[item0, item2]\<close> for 2 results and threshold 0.5, \<open>[item0]\<close>
  for 1 result, and \<open>[item0]\<close> for threshold 0.95.
\<close>

theorem three_item_scenario:
  assumes "argsort_ok [- 1, 0, - (7 / 10)] (argsort lib [- 1, 0, - (7 / 10)])"
  shows "top_matches lib [[1, 0], [0, 1], [7 / 10, 7 / 10]] [item0, item1, item2] [1, 0] 2 (1 / 2)
           = Inr (Some [item0, item2])
    \<and> top_matches lib [[1, 0], [0, 1], [7 / 10, 7 / 10]] [item0, item1, item2] [1, 0] 1 (1 / 2)
           = Inr (Some [item0])
    \<and> top_matches lib [[1, 0], [0, 1], [7 / 10, 7 / 10]] [item0, item1, item2] [1, 0] 2 (95 / 100)
           = Inr (Some [item0])"
  using argsort_three [OF assms]
  by (simp add: top_matches_def similarities_def dot_def best_photo_idx_def slice_to_def)

theorem three_item_scenario_witness:
  "argsort_ok [- 1, 0, - (7 / 10)] (argsort lib_A [- 1, 0, - (7 / 10)])
   \<and> top_matches lib_A [[1, 0], [0, 1], [7 / 10, 7 / 10]] [0, 1, 2::nat] [1, 0] 2 (1 / 2)
           = Inr (Some [0, 2])
   \<and> top_matches lib_A [[1, 0], [0, 1], [7 / 10, 7 / 10]] [0, 1, 2::nat] [1, 0] 1 (1 / 2)
           = Inr (Some [0])
   \<and> top_matches lib_A [[1, 0], [0, 1], [7 / 10, 7 / 10]] [0, 1, 2::nat] [1, 0] 2 (95 / 100)
           = Inr (Some [0])"
proof -
  have a: "argsort_ok [- 1, 0, - (7 / 10)] (argsort lib_A [- 1, 0, - (7 / 10)])"
    by (simp add: argsort_ok_def lib_A_def argsort_asc_def)
  from three_item_scenario [OF a, of 0 1 2] a show ?thesis by blast
qed

text \<open>
  C4 as stated fails: after the setup cells on that collection, the call of
  \<open>search_images\<close> with 2 results and threshold 0.5 raises and returns no list.
\<close>

theorem three_item_search_counterexample:
  "notebook_setup lib_A three_images = Inr globals_unbound
   \<and> search_images lib_A globals_unbound ''a dog'' ''CLIP (ViT-B/32)'' 2 (1 / 2)
       = (globals_unbound, Inl (NameError ''current_model''))"
  by (simp add: notebook_setup_def load_model_def MODELS_def lib_A_def load_sample_dataset_def
      three_images_def embed_item_def model_A_def transform_id_def torch_cat_def
      globals_unbound_def search_images_def)

text \<open>
  C5, as the code has it. When no similarity is strictly greater than the threshold, the
  ranking step returns \<open>None\<close>, for every \<open>num_results\<close>.
\<close>

theorem top_matches_no_match:
  assumes "\<forall>row \<in> set feats. length row = length text_features"
    and "\<forall>row \<in> set feats. dot row text_features \<le> t"
  shows "top_matches lib feats imgs text_features num_results t = Inr None"
  using assms by (auto simp: top_matches_def similarities_def)

theorem top_matches_no_match_witness:
  "top_matches lib_A [[1, 0], [0, 1], [7 / 10, 7 / 10]] [0, 1, 2] [1, 0] 9 2 = Inr None"
proof -
  have 1: "\<forall>row \<in> set [[1, 0], [0, 1], [7 / 10, 7 / 10]]. length row = length [1, 0 :: real]"
    by simp
  have 2: "\<forall>row \<in> set [[1, 0], [0, 1], [7 / 10, 7 / 10]]. dot row [1, 0] \<le> 2"
    by (simp add: dot_def)
  from 1 2 show ?thesis by (rule top_matches_no_match)
qed

text \<open>C5 as stated fails: the value returned is \<open>None\<close>, not an empty list.\<close>

theorem empty_result_counterexample:
  "top_matches lib_A [[1, 0], [0, 1], [7 / 10, 7 / 10]] [0, 1, 2] [1, 0] 9 2 = Inr None
   \<and> top_matches lib_A [[1, 0], [0, 1], [7 / 10, 7 / 10]] [0, 1, 2] [1, 0] 9 2 \<noteq> Inr (Some [])
   \<and> snd (search_images lib_A globals_bound ''a dog'' ''CLIP (ViT-B/32)'' 9 2) = Inr None"
  by (simp add: top_matches_def similarities_def dot_def search_images_def globals_bound_def
      globals_unbound_def lib_A_def model_A_def)

text \<open>
  C8. For every collection, query vector, threshold and \<open>num_results \<ge> 1\<close>, a list
  returned by the ranking step has at most \<open>num_results\<close> entries.
\<close>

theorem top_matches_length_le:
  assumes "1 \<le> num_results"
    and "top_matches lib feats imgs text_features num_results t = Inr (Some found)"
  shows "int (length found) \<le> num_results"
proof -
  from assms(2) obtain sims where
    c: "collect_matches imgs sims t (best_photo_idx lib sims num_results) = Inr found"
    by (auto simp: top_matches_def split: sum.splits if_splits)
  have "length found \<le> length (best_photo_idx lib sims num_results)"
    using collect_matches_Inr [OF c] by simp
  also have "\<dots> \<le> nat num_results"
    using assms(1) by (simp add: best_photo_idx_def length_slice_to)
  finally show ?thesis using assms(1) by linarith
qed

theorem top_matches_length_le_witness:
  "(1::int) \<le> 2
   \<and> top_matches lib_A [[1, 0], [0, 1], [7 / 10, 7 / 10]] [0, 1, 2] [1, 0] 2 (- 1)
       = Inr (Some [0, 2::nat])
   \<and> int (length [0, 2::nat]) \<le> 2"
proof -
  have k: "(1::int) \<le> 2" by simp
  have h: "top_matches lib_A [[1, 0], [0, 1], [7 / 10, 7 / 10]] [0, 1, 2] [1, 0] 2 (- 1)
     = Inr (Some [0, 2::nat])"
    by (simp add: top_matches_def similarities_def dot_def best_photo_idx_def slice_to_def
        lib_A_def argsort_asc_def)
  from top_matches_length_le [OF k h] k h show ?thesis by blast
qed

text \<open>
  C6, as the code has it. \<open>num_results\<close> is not validated. With the features and the query
  vector of one length, an \<open>argsort\<close> that meets \<open>argsort_ok\<close> and one image per row of
  features, the ranking step with \<open>num_results \<le> 0\<close> returns without raising: \<open>None\<close> when
  no similarity exceeds the threshold; otherwise the images above the threshold among the
  candidates of the slice, which are none for \<open>num_results = 0\<close> and all of the ordering but
  its last \<open>- num_results\<close> entries for a negative \<open>num_results\<close>.
\<close>

theorem top_matches_nonpositive_num_results:
  assumes "num_results \<le> 0"
    and "\<forall>row \<in> set feats. length row = length text_features"
    and "argsort_ok (map uminus (map (\<lambda>row. dot row text_features) feats))
           (argsort lib (map uminus (map (\<lambda>row. dot row text_features) feats)))"
    and "length imgs = length feats"
  shows "top_matches lib feats imgs text_features num_results t =
     Inr (if \<exists>row \<in> set feats. t < dot row text_features
          then Some (map (\<lambda>i. imgs ! i)
                 (filter (\<lambda>i. t < dot (feats ! i) text_features)
                    (if num_results = 0 then []
                     else take (length feats - nat (- num_results))
                            (argsort lib (map uminus (map (\<lambda>row. dot row text_features) feats))))))
          else None)"
proof -
  let ?sims = "map (\<lambda>row. dot row text_features) feats"
  let ?order = "argsort lib (map uminus ?sims)"
  let ?cand = "if num_results = 0 then [] else take (length feats - nat (- num_results)) ?order"
  have s: "similarities feats text_features = Inr ?sims"
    using assms(2) by (simp add: similarities_def)
  have len: "length ?order = length feats"
    using argsort_ok_length [OF assms(3)] by simp
  have b: "best_photo_idx lib ?sims num_results = ?cand"
    using assms(1) len by (simp add: best_photo_idx_def slice_to_def)
  have rng: "\<forall>i \<in> set ?cand. i < length ?sims \<and> i < length imgs"
  proof
    fix i assume "i \<in> set ?cand"
    then have "i \<in> set ?order" by (auto split: if_splits dest: in_set_takeD)
    with argsort_ok_set [OF assms(3)] assms(4) show "i < length ?sims \<and> i < length imgs"
      by simp
  qed
  have f: "filter (\<lambda>i. t < ?sims ! i) ?cand = filter (\<lambda>i. t < dot (feats ! i) text_features) ?cand"
    using rng by (intro filter_cong) auto
  have c: "collect_matches imgs ?sims t ?cand
             = Inr (map (\<lambda>i. imgs ! i) (filter (\<lambda>i. t < dot (feats ! i) text_features) ?cand))"
    using collect_matches_in_range [OF rng] f by simp
  from c b have c': "collect_matches imgs ?sims t (best_photo_idx lib ?sims num_results)
             = Inr (map (\<lambda>i. imgs ! i) (filter (\<lambda>i. t < dot (feats ! i) text_features) ?cand))"
    by simp
  show ?thesis
  proof (cases "\<exists>row \<in> set feats. t < dot row text_features")
    case True
    then have "\<exists>s \<in> set ?sims. t < s" by simp
    with s c' True show ?thesis by (simp only: top_matches_def sum.case if_True if_False not_not not_True_eq_False)
  next
    case False
    then have "\<not> (\<exists>s \<in> set ?sims. t < s)" by simp
    with s False show ?thesis by (simp only: top_matches_def sum.case if_True if_False not_False_eq_True)
  qed
qed

theorem top_matches_nonpositive_num_results_witness:
  "(0::int) \<le> 0
   \<and> top_matches lib_A [[1, 0], [0, 1], [7 / 10, 7 / 10]] [0, 1, 2] [1, 0] 0 (1 / 2)
       = Inr (Some [])
   \<and> top_matches lib_A [[1, 0], [0, 1], [7 / 10, 7 / 10]] [0, 1, 2] [1, 0] (- 1) (1 / 2)
       = Inr (Some [0, 2])"
proof -
  have k: "(0::int) \<le> 0" "(- 1::int) \<le> 0" by simp_all
  have d: "\<forall>row \<in> set [[1, 0], [0, 1], [7 / 10, 7 / 10]]. length row = length [1, 0 :: real]"
    by simp
  have a: "argsort_ok (map uminus (map (\<lambda>row. dot row [1, 0]) [[1, 0], [0, 1], [7 / 10, 7 / 10]]))
     (argsort lib_A (map uminus (map (\<lambda>row. dot row [1, 0]) [[1, 0], [0, 1], [7 / 10, 7 / 10]])))"
    by (simp add: argsort_ok_def dot_def lib_A_def argsort_asc_def)
  have l: "length [0, 1, 2 :: nat] = length [[1, 0], [0, 1], [7 / 10, 7 / 10 :: real]]" by simp
  have 0: "top_matches lib_A [[1, 0], [0, 1], [7 / 10, 7 / 10]] [0, 1, 2] [1, 0] 0 (1 / 2)
       = Inr (Some [])"
    using top_matches_nonpositive_num_results [OF k(1) d a l, of "1 / 2"]
    by (simp add: dot_def)
  have 1: "top_matches lib_A [[1, 0], [0, 1], [7 / 10, 7 / 10]] [0, 1, 2] [1, 0] (- 1) (1 / 2)
       = Inr (Some [0, 2])"
    using top_matches_nonpositive_num_results [OF k(2) d a l, of "1 / 2"]
    by (simp add: dot_def lib_A_def argsort_asc_def)
  from 0 1 show ?thesis by simp
qed

text \<open>
  C6 as stated fails: with \<open>num_results = 0\<close> the ranking step returns the empty list, and
  so does \<open>search_images\<close> once \<open>current_model\<close> is bound; with \<open>num_results = - 1\<close> it
  returns two images.
\<close>

theorem zero_results_counterexample:
  "top_matches lib_A [[1, 0], [0, 1], [7 / 10, 7 / 10]] [0, 1, 2] [1, 0] 0 (1 / 2) = Inr (Some [])
   \<and> snd (search_images lib_A globals_bound ''a dog'' ''CLIP (ViT-B/32)'' 0 (1 / 2))
       = Inr (Some [])
   \<and> snd (search_images lib_A globals_bound ''a dog'' ''CLIP (ViT-B/32)'' (- 1) (1 / 2))
       = Inr (Some [0, 2])"
  by (simp add: search_images_def globals_bound_def globals_unbound_def lib_A_def model_A_def
      top_matches_def similarities_def dot_def best_photo_idx_def slice_to_def argsort_asc_def)

subsection \<open>Building the collection\<close>

text \<open>
  C7, as the code has it. When converting, preprocessing or encoding fails on any image of
  the dataset, the cell that builds the collection ends with an exception: no collection
  is produced and no image is skipped.
\<close>

theorem load_sample_dataset_aborts:
  assumes "\<exists>x \<in> set dataset. \<exists>e. embed_item lib m pre (fst x) = Inl e"
  shows "\<exists>e. load_sample_dataset lib m pre dataset = Inl e"
proof -
  from embed_loop_Inl [OF assms] obtain e where
    "embed_loop lib m pre dataset ([], []) = Inl e" by blast
  then show ?thesis by (simp add: load_sample_dataset_def)
qed

theorem load_sample_dataset_aborts_witness:
  "(\<exists>x \<in> set [(0, 0), (7, 0), (1, 0)]. \<exists>e. embed_item lib_A model_A transform_id (fst x) = Inl e)
   \<and> (\<exists>e. load_sample_dataset lib_A model_A transform_id [(0, 0), (7, 0), (1, 0)] = Inl e)"
proof -
  have h: "\<exists>x \<in> set [(0, 0), (7, 0), (1, 0)].
             \<exists>e. embed_item lib_A model_A transform_id (fst x) = Inl e"
    by (simp add: embed_item_def lib_A_def model_A_def transform_id_def)
  from load_sample_dataset_aborts [OF h] h show ?thesis by blast
qed

text \<open>
  C7 as stated fails: with a second image that the model cannot encode, the build of a
  dataset of three images raises the model's exception, where the claim has a collection
  of the two other images and a count of one skipped.
\<close>

theorem failing_item_counterexample:
  "load_sample_dataset lib_A model_A transform_id [(0, 0), (7, 0), (1, 0)]
     = Inl (LibraryError ''encode_image'')"
  by (simp add: load_sample_dataset_def embed_item_def lib_A_def model_A_def transform_id_def)

text \<open>
  C9. Two builds from the same dataset that both complete hold the same images at the
  same positions, position \<open>j\<close> holding the converted \<open>j\<close>-th image of the dataset and its
  features, also when the embeddings of the two runs differ; with the same model and
  transform the features are the same too.
\<close>

theorem load_sample_dataset_deterministic:
  assumes "load_sample_dataset lib m1 pre1 dataset = Inr (feats1, imgs1, n1)"
    and "load_sample_dataset lib m2 pre2 dataset = Inr (feats2, imgs2, n2)"
  shows "imgs1 = imgs2 \<and> n1 = n2
    \<and> length imgs1 = length dataset \<and> length feats1 = length dataset
    \<and> length feats2 = length dataset
    \<and> (\<forall>j < length dataset. convert_rgb lib (fst (dataset ! j)) = Inr (imgs1 ! j)
          \<and> embed_item lib m1 pre1 (fst (dataset ! j)) = Inr (feats1 ! j, imgs1 ! j)
          \<and> embed_item lib m2 pre2 (fst (dataset ! j)) = Inr (feats2 ! j, imgs2 ! j))
    \<and> (m1 = m2 \<and> pre1 = pre2 \<longrightarrow> feats1 = feats2)"
proof -
  note 1 = load_sample_dataset_Inr [OF assms(1)]
  note 2 = load_sample_dataset_Inr [OF assms(2)]
  have c: "convert_rgb lib (fst (dataset ! j)) = Inr (imgs1 ! j)"
    "convert_rgb lib (fst (dataset ! j)) = Inr (imgs2 ! j)" if "j < length dataset" for j
    using 1 2 that by (blast intro: embed_item_image)+
  have "imgs1 = imgs2"
  proof (rule nth_equalityI)
    show "length imgs1 = length imgs2" using 1 2 by simp
  next
    fix j assume "j < length imgs1"
    with 1 have "j < length dataset" by simp
    from c [OF this] show "imgs1 ! j = imgs2 ! j" by simp
  qed
  moreover have "feats1 = feats2" if "m1 = m2 \<and> pre1 = pre2"
    using assms that by simp
  ultimately show ?thesis using 1 2 c by auto
qed

theorem load_sample_dataset_deterministic_witness:
  "load_sample_dataset lib_A model_A transform_id three_images
     = Inr ([[1, 0], [0, 1], [7 / 10, 7 / 10]], [0, 1, 2], 3)
   \<and> load_sample_dataset lib_A model_B transform_id three_images
     = Inr ([[0, 1], [1, 0], [7 / 10, 7 / 10]], [0, 1, 2], 3)
   \<and> convert_rgb lib_A (fst (three_images ! 1)) = Inr ([0, 1, 2] ! 1)
   \<and> embed_item lib_A model_A transform_id (fst (three_images ! 1))
       = Inr ([[1, 0], [0, 1], [7 / 10, 7 / 10]] ! 1, [0, 1, 2] ! 1)
   \<and> embed_item lib_A model_B transform_id (fst (three_images ! 1))
       = Inr ([[0, 1], [1, 0], [7 / 10, 7 / 10]] ! 1, [0, 1, 2] ! 1)"
proof -
  have a: "load_sample_dataset lib_A model_A transform_id three_images
     = Inr ([[1, 0], [0, 1], [7 / 10, 7 / 10]], [0, 1, 2], 3)"
    by (simp add: load_sample_dataset_def embed_item_def lib_A_def model_A_def transform_id_def
        three_images_def torch_cat_def)
  have b: "load_sample_dataset lib_A model_B transform_id three_images
     = Inr ([[0, 1], [1, 0], [7 / 10, 7 / 10]], [0, 1, 2], 3)"
    by (simp add: load_sample_dataset_def embed_item_def lib_A_def model_B_def transform_id_def
        three_images_def torch_cat_def)
  have j: "1 < length three_images" by (simp add: three_images_def)
  from load_sample_dataset_deterministic [OF a b] j a b show ?thesis by blast
qed

subsection \<open>\<open>search_images\<close> as a whole\<close>

text \<open>
  C10. After the setup cells, every call of \<open>search_images\<close>, whatever the query, the model
  name, the number of results and the threshold, raises \<open>NameError\<close> for the name
  \<open>current_model\<close> and returns nothing; it leaves the globals as they were, so the name is
  still unbound at the next call. The same holds for \<open>gradio_search\<close>, through which the
  interface calls it.
\<close>

theorem search_images_raises_NameError:
  assumes "notebook_setup lib dataset = Inr g"
  shows "search_images lib g query model_choice num_results similarity_threshold
           = (g, Inl (NameError ''current_model''))
    \<and> gradio_search lib g query model_choice similarity_threshold
           = (g, Inl (NameError ''current_model''))"
  using notebook_setup_unbound [OF assms] by (simp add: search_images_def gradio_search_def)

theorem search_images_raises_NameError_witness:
  "notebook_setup lib_A three_images = Inr globals_unbound
   \<and> search_images lib_A globals_unbound ''red flowers in a garden'' ''OpenCLIP (ViT-B-32)'' 9 (1 / 5)
       = (globals_unbound, Inl (NameError ''current_model''))
   \<and> gradio_search lib_A globals_unbound ''red flowers in a garden'' ''OpenCLIP (ViT-B-32)'' (1 / 5)
       = (globals_unbound, Inl (NameError ''current_model''))"
proof -
  have h: "notebook_setup lib_A three_images = Inr globals_unbound"
    by (simp add: notebook_setup_def load_model_def MODELS_def lib_A_def load_sample_dataset_def
        three_images_def embed_item_def model_A_def transform_id_def torch_cat_def
        globals_unbound_def)
  from search_images_raises_NameError [OF h] h show ?thesis by blast
qed

text \<open>
  C1, as the code has it. When \<open>current_model\<close> is bound and the requested name differs
  from it, \<open>search_images\<close> replaces \<open>model\<close> and \<open>preprocess\<close> by the result of
  \<open>load_model\<close> and nothing else: \<open>image_features\<close> stays as the setup cells built it, and
  the query vector of the newly loaded model is compared with it.
\<close>

theorem search_images_switch:
  assumes "current_model g = Some cm"
    and "model_choice \<noteq> cm"
    and "load_model lib model_choice = Inr (m, pre)"
  shows "fst (search_images lib g query model_choice num_results t)
           = g\<lparr>model := m, preprocess := pre\<rparr>
    \<and> image_features (fst (search_images lib g query model_choice num_results t))
           = image_features g
    \<and> snd (search_images lib g query model_choice num_results t)
           = (case tokenize lib query of
                Inl e \<Rightarrow> Inl e
              | Inr tokens \<Rightarrow>
                  (case encode_text m tokens of
                     Inl e \<Rightarrow> Inl e
                   | Inr text_features \<Rightarrow>
                       top_matches lib (image_features g) (processed_images g)
                         text_features num_results t))"
  using assms by (simp add: search_images_def split: sum.splits)

theorem search_images_switch_witness:
  "current_model globals_bound = Some ''CLIP (ViT-B/32)''
   \<and> load_model lib_A ''OpenCLIP (ViT-B-32)'' = Inr (model_B, transform_id)
   \<and> fst (search_images lib_A globals_bound ''a dog'' ''OpenCLIP (ViT-B-32)'' 9 (1 / 5))
       = globals_bound\<lparr>model := model_B, preprocess := transform_id\<rparr>"
proof -
  have c: "current_model globals_bound = Some ''CLIP (ViT-B/32)''"
    by (simp add: globals_bound_def)
  have n: "''OpenCLIP (ViT-B-32)'' \<noteq> ''CLIP (ViT-B/32)''" by simp
  have l: "load_model lib_A ''OpenCLIP (ViT-B-32)'' = Inr (model_B, transform_id)"
    by (simp add: load_model_def MODELS_def lib_A_def)
  from search_images_switch [OF c n l] c l show ?thesis by blast
qed

text \<open>
  C1 as stated fails. Model B embeds the three images as \<open>[0, 1]\<close>, \<open>[1, 0]\<close>,
  \<open>[0.7, 0.7]\<close>. After a call that switches from model A to model B the collection still
  holds the features of model A; the query vector of model B is compared with them and
  the images 1 and 2 are returned, where the collection rebuilt with model B gives the
  images 0 and 2. With \<open>current_model\<close> unbound, as the setup cells leave it, the call
  changes nothing either.
\<close>

theorem no_rebuild_counterexample:
  "load_model lib_A ''OpenCLIP (ViT-B-32)'' = Inr (model_B, transform_id)
   \<and> load_sample_dataset lib_A model_B transform_id three_images
       = Inr ([[0, 1], [1, 0], [7 / 10, 7 / 10]], [0, 1, 2], 3)
   \<and> image_features
         (fst (search_images lib_A globals_bound ''a dog'' ''OpenCLIP (ViT-B-32)'' 9 (1 / 5)))
       = [[1, 0], [0, 1], [7 / 10, 7 / 10]]
   \<and> snd (search_images lib_A globals_bound ''a dog'' ''OpenCLIP (ViT-B-32)'' 9 (1 / 5))
       = Inr (Some [1, 2])
   \<and> top_matches lib_A [[0, 1], [1, 0], [7 / 10, 7 / 10]] [0, 1, 2] [0, 1] 9 (1 / 5)
       = Inr (Some [0, 2])
   \<and> image_features
         (fst (search_images lib_A globals_unbound ''a dog'' ''OpenCLIP (ViT-B-32)'' 9 (1 / 5)))
       = [[1, 0], [0, 1], [7 / 10, 7 / 10]]"
  by (simp add: load_model_def MODELS_def lib_A_def load_sample_dataset_def embed_item_def
      model_B_def transform_id_def three_images_def torch_cat_def search_images_def
      globals_bound_def globals_unbound_def top_matches_def similarities_def dot_def
      best_photo_idx_def slice_to_def argsort_asc_def)

end
